theory Spec2Isabelle
  imports Main "HOL-Library.Sublist"
begin

section \<open>Values that cross the interfaces\<close>

text \<open>
  Go's \<^verbatim>\<open>interface{}\<close> results and \<^verbatim>\<open>error\<close> values are nilable: both are options here.
  An \<^verbatim>\<open>awserr.Error\<close> carries a code and a message; \<^verbatim>\<open>ActivityTaskCanceledError{}\<close> is the
  package's own marker type; every other error is opaque.
\<close>

type_synonym payload = string

datatype error =
    AwsError string string
  | ActivityTaskCanceledError
  | OtherError string

section \<open>interceptors.go: FuncInterceptor\<close>

text \<open>
  The four function fields are nilable func values. A func of Go returns nothing and acts
  on the world; it is a transformer of a world \<open>'w\<close> here, and a nil field is \<open>None\<close>.
\<close>

record ('t, 'w) FuncInterceptor =
  BeforeTaskFn :: "('t \<Rightarrow> 'w \<Rightarrow> 'w) option"
  AfterTaskCompleteFn :: "('t \<Rightarrow> payload option \<Rightarrow> 'w \<Rightarrow> 'w) option"
  AfterTaskFailedFn :: "('t \<Rightarrow> error option \<Rightarrow> 'w \<Rightarrow> 'w) option"
  AfterTaskCanceledFn :: "('t \<Rightarrow> string \<Rightarrow> 'w \<Rightarrow> 'w) option"

definition BeforeTask :: "('t, 'w) FuncInterceptor \<Rightarrow> 't \<Rightarrow> 'w \<Rightarrow> 'w" where
  "BeforeTask i activity w =
     (case BeforeTaskFn i of None \<Rightarrow> w | Some f \<Rightarrow> f activity w)"

definition AfterTaskComplete ::
  "('t, 'w) FuncInterceptor \<Rightarrow> 't \<Rightarrow> payload option \<Rightarrow> 'w \<Rightarrow> 'w" where
  "AfterTaskComplete i activity result w =
     (case AfterTaskCompleteFn i of None \<Rightarrow> w | Some f \<Rightarrow> f activity result w)"

definition AfterTaskFailed ::
  "('t, 'w) FuncInterceptor \<Rightarrow> 't \<Rightarrow> error option \<Rightarrow> 'w \<Rightarrow> 'w" where
  "AfterTaskFailed i activity err w =
     (case AfterTaskFailedFn i of None \<Rightarrow> w | Some f \<Rightarrow> f activity err w)"

definition AfterTaskCanceled ::
  "('t, 'w) FuncInterceptor \<Rightarrow> 't \<Rightarrow> string \<Rightarrow> 'w \<Rightarrow> 'w" where
  "AfterTaskCanceled i activity details w =
     (case AfterTaskCanceledFn i of None \<Rightarrow> w | Some f \<Rightarrow> f activity details w)"

section \<open>The coordinated adapter: two goroutines and two channels\<close>

subsection \<open>Classifying a heartbeat error\<close>

definition TaskGone :: string where
  "TaskGone = ''Unknown activity''"

text \<open>\<^verbatim>\<open>strings.Contains(s, substr)\<close>: \<open>substr\<close> occurs in \<open>s\<close> as a contiguous run.\<close>

fun Contains :: "string \<Rightarrow> string \<Rightarrow> bool" where
  "Contains [] substr = (substr = [])"
| "Contains (c # s) substr = (prefix substr (c # s) \<or> Contains s substr)"

text \<open>
  The test of line 106. The constant \<^verbatim>\<open>ErrorTypeUnknownResourceFault\<close> is dot-imported
  from another package and is not part of the file: it is the parameter \<open>urf\<close>.
\<close>

definition task_gone :: "string \<Rightarrow> error \<Rightarrow> bool" where
  "task_gone urf err =
     (case err of
        AwsError code message \<Rightarrow> code = urf \<and> Contains message TaskGone
      | _ \<Rightarrow> False)"

subsection \<open>Sessions\<close>

text \<open>
  What \<^verbatim>\<open>RecordActivityTaskHeartbeat\<close> returns: an error, or a status whose
  \<^verbatim>\<open>CancelRequested\<close> field is a \<^verbatim>\<open>*bool\<close> (nil is \<open>None\<close>).
\<close>

datatype hb_reply = HbFailed error | HbRecorded "bool option"

datatype side = Monitor | Adapter

text \<open>
  The observable actions of a session, in the order they happen. \<open>SendCancel\<close> is a
  goroutine reaching a send statement on the cancel channel, \<open>RecvCancel\<close> the adapter
  receiving from it.
\<close>

datatype action =
    StartCall
  | SignalStartCall "payload option"
  | GoHeartbeat
  | TickCall bool "payload option" "error option"
  | SignalUpdateCall payload
  | CancelCall
  | HeartbeatCall hb_reply
  | SendCancel side "error option"
  | RecvCancel "error option"
  | StopObserved
  | CloseStop
  | Return "payload option" "error option"

text \<open>
  Where each goroutine stands. The adapter waits in its \<^verbatim>\<open>select\<close>, or is blocked in the
  send of line 159, or has returned. The monitor has not been spawned, waits in its
  \<^verbatim>\<open>select\<close>, is blocked in the send of line 108 or 116, has returned, or has panicked
  (which ends the whole process).
\<close>

datatype adapter_state =
    Selecting
  | SendingCancel error
  | Returned "payload option" "error option"

datatype monitor_state =
    NotStarted
  | Waiting
  | Emitting "error option"
  | Stopped
  | Panicked

record session =
  adapter :: adapter_state
  monitor :: monitor_state
  stop_closed :: bool
  trace :: "action list"

definition logs :: "action list \<Rightarrow> session \<Rightarrow> session" where
  "logs as s = s\<lparr>trace := trace s @ as\<rparr>"

text \<open>
  What the environment does next. The channel \<^verbatim>\<open>cancel\<close> is unbuffered, so a send on it
  completes only together with a receive; \<^verbatim>\<open>select\<close> takes any ready case. An event names
  the case taken and carries what the calls made in that branch return:
  \<^item> \<open>HeartbeatFires reply\<close>: the monitor takes \<^verbatim>\<open><-heartbeats.C\<close>; the heartbeat call
    returns \<open>reply\<close>;
  \<^item> \<open>StopSelected\<close>: the monitor takes \<^verbatim>\<open><-stop\<close>;
  \<^item> \<open>TickFires cont res err su\<close>: the adapter takes \<^verbatim>\<open><-ticks.C\<close>; \<^verbatim>\<open>Tick\<close> returns
    \<open>(cont, res, err)\<close>, and \<^verbatim>\<open>signalUpdate\<close>, if called, returns \<open>su\<close>;
  \<^item> \<open>CancelSelected cr\<close>: the adapter takes \<^verbatim>\<open>cause := <-cancel\<close>; \<^verbatim>\<open>Cancel\<close> returns \<open>cr\<close>.
  An event whose case is not ready in the current state changes nothing.
\<close>

datatype event =
    HeartbeatFires hb_reply
  | StopSelected
  | TickFires bool "payload option" "error option" "error option"
  | CancelSelected "error option"

subsection \<open>heartbeat (lines 97-124)\<close>

text \<open>The body of \<^verbatim>\<open>case <-heartbeats.C\<close>, lines 103-119.\<close>

definition heartbeat_beat :: "string \<Rightarrow> hb_reply \<Rightarrow> session \<Rightarrow> session" where
  "heartbeat_beat urf reply s =
     (let s1 = logs [HeartbeatCall reply] s in
      case reply of
        HbFailed err \<Rightarrow>
          if task_gone urf err
          then (logs [SendCancel Monitor None] s1)\<lparr>monitor := Emitting None\<rparr>
          else s1
      | HbRecorded None \<Rightarrow> s1\<lparr>monitor := Panicked\<rparr>
      | HbRecorded (Some cancelRequested) \<Rightarrow>
          if cancelRequested
          then (logs [SendCancel Monitor (Some ActivityTaskCanceledError)] s1)
                 \<lparr>monitor := Emitting (Some ActivityTaskCanceledError)\<rparr>
          else s1)"

text \<open>One turn of the monitor's \<^verbatim>\<open>select\<close>.\<close>

definition heartbeat :: "string \<Rightarrow> event \<Rightarrow> session \<Rightarrow> session" where
  "heartbeat urf ev s =
     (case ev of
        HeartbeatFires reply \<Rightarrow> heartbeat_beat urf reply s
      | StopSelected \<Rightarrow>
          if stop_closed s then (logs [StopObserved] s)\<lparr>monitor := Stopped\<rparr> else s
      | _ \<Rightarrow> s)"

subsection \<open>coordinate (lines 126-166)\<close>

text \<open>
  A return after line 139 runs the deferred calls first: \<^verbatim>\<open>ticks.Stop()\<close>, then
  \<^verbatim>\<open>close(stopHeartbeating)\<close>.
\<close>

definition return_deferred :: "payload option \<Rightarrow> error option \<Rightarrow> session \<Rightarrow> session" where
  "return_deferred res err s =
     (logs [CloseStop, Return res err] s)\<lparr>adapter := Returned res err, stop_closed := True\<rparr>"

text \<open>Lines 126-139: \<^verbatim>\<open>Start\<close> returns \<open>(update, err)\<close>, \<^verbatim>\<open>signalStart\<close> returns \<open>ss\<close>.\<close>

definition coordinate_setup :: "payload option \<times> error option \<Rightarrow> error option \<Rightarrow> session" where
  "coordinate_setup started ss =
     (case snd started of
        Some err \<Rightarrow>
          \<lparr>adapter = Returned None (Some err), monitor = NotStarted, stop_closed = False,
           trace = [StartCall, Return None (Some err)]\<rparr>
      | None \<Rightarrow>
          (case ss of
             Some err \<Rightarrow>
               \<lparr>adapter = Returned None (Some err), monitor = NotStarted, stop_closed = False,
                trace = [StartCall, SignalStartCall (fst started), Return None (Some err)]\<rparr>
           | None \<Rightarrow>
               \<lparr>adapter = Selecting, monitor = Waiting, stop_closed = False,
                trace = [StartCall, SignalStartCall (fst started), GoHeartbeat]\<rparr>))"

text \<open>The body of \<^verbatim>\<open>case <-ticks.C\<close>, lines 151-163.\<close>

definition coordinate_tick ::
  "bool \<Rightarrow> payload option \<Rightarrow> error option \<Rightarrow> error option \<Rightarrow> session \<Rightarrow> session" where
  "coordinate_tick cont res err su s =
     (let s1 = logs [TickCall cont res err] s in
      if \<not> cont then return_deferred res err s1
      else case res of
             None \<Rightarrow> s1
           | Some r \<Rightarrow>
               (let s2 = logs [SignalUpdateCall r] s1 in
                case su of
                  None \<Rightarrow> s2
                | Some e \<Rightarrow> (logs [SendCancel Adapter (Some e)] s2)\<lparr>adapter := SendingCancel e\<rparr>))"

text \<open>The body of \<^verbatim>\<open>case cause := <-cancel\<close>, lines 146-149; the error of \<^verbatim>\<open>Cancel\<close> is only logged.\<close>

definition coordinate_cancel :: "error option \<Rightarrow> error option \<Rightarrow> session \<Rightarrow> session" where
  "coordinate_cancel cause cr s =
     return_deferred None cause (logs [RecvCancel cause, CancelCall] s)"

text \<open>
  One turn of the adapter's \<^verbatim>\<open>select\<close>. The receive is ready only while the monitor is blocked
  in its send; the send completes with it, and the monitor returns (lines 109, 117).
\<close>

definition coordinate_select :: "event \<Rightarrow> session \<Rightarrow> session" where
  "coordinate_select ev s =
     (case ev of
        TickFires cont res err su \<Rightarrow> coordinate_tick cont res err su s
      | CancelSelected cr \<Rightarrow>
          (case monitor s of
             Emitting cause \<Rightarrow> coordinate_cancel cause cr (s\<lparr>monitor := Stopped\<rparr>)
           | _ \<Rightarrow> s)
      | _ \<Rightarrow> s)"

subsection \<open>The two goroutines together\<close>

text \<open>
  A goroutine moves only from its \<^verbatim>\<open>select\<close>: blocked in a plain send, or returned, it takes
  no event. After a panic nothing runs.
\<close>

definition step :: "string \<Rightarrow> event \<Rightarrow> session \<Rightarrow> session" where
  "step urf ev s =
     (if monitor s = Panicked then s
      else case ev of
             HeartbeatFires reply \<Rightarrow> if monitor s = Waiting then heartbeat urf ev s else s
           | StopSelected \<Rightarrow> if monitor s = Waiting then heartbeat urf ev s else s
           | TickFires cont res err su \<Rightarrow>
               if adapter s = Selecting then coordinate_select ev s else s
           | CancelSelected cr \<Rightarrow>
               if adapter s = Selecting then coordinate_select ev s else s)"

fun run :: "string \<Rightarrow> event list \<Rightarrow> session \<Rightarrow> session" where
  "run urf [] s = s"
| "run urf (ev # evs) s = run urf evs (step urf ev s)"

definition coordinate ::
  "string \<Rightarrow> payload option \<times> error option \<Rightarrow> error option \<Rightarrow> event list \<Rightarrow> session" where
  "coordinate urf started ss evs = run urf evs (coordinate_setup started ss)"

subsection \<open>Reading a trace\<close>

fun by_monitor :: "action \<Rightarrow> bool" where
  "by_monitor (HeartbeatCall r) = True"
| "by_monitor (SendCancel w c) = (w = Monitor)"
| "by_monitor StopObserved = True"
| "by_monitor a = False"

definition adapter_view :: "action list \<Rightarrow> action list" where
  "adapter_view tr = filter (\<lambda>a. \<not> by_monitor a) tr"

fun updates_sent :: "action list \<Rightarrow> payload list" where
  "updates_sent [] = []"
| "updates_sent (SignalUpdateCall r # tr) = r # updates_sent tr"
| "updates_sent (a # tr) = updates_sent tr"

fun progress_results :: "action list \<Rightarrow> payload list" where
  "progress_results [] = []"
| "progress_results (TickCall True (Some r) err # tr) = r # progress_results tr"
| "progress_results (a # tr) = progress_results tr"

fun last_heartbeat :: "action list \<Rightarrow> hb_reply option" where
  "last_heartbeat [] = None"
| "last_heartbeat (HeartbeatCall r # tr) =
     (case last_heartbeat tr of None \<Rightarrow> Some r | Some r' \<Rightarrow> Some r')"
| "last_heartbeat (a # tr) = last_heartbeat tr"

definition monitor_view :: "action list \<Rightarrow> action list" where
  "monitor_view tr = filter by_monitor tr"

fun is_Return :: "action \<Rightarrow> bool" where
  "is_Return (Return res err) = True"
| "is_Return a = False"

fun is_RecvCancel :: "action \<Rightarrow> bool" where
  "is_RecvCancel (RecvCancel cause) = True"
| "is_RecvCancel a = False"

fun is_MonitorSend :: "action \<Rightarrow> bool" where
  "is_MonitorSend (SendCancel w cause) = (w = Monitor)"
| "is_MonitorSend a = False"

fun is_AdapterSend :: "action \<Rightarrow> bool" where
  "is_AdapterSend (SendCancel w cause) = (w = Adapter)"
| "is_AdapterSend a = False"

subsection \<open>Invariants of a session\<close>

text \<open>
  The cause a blocked or completed send carries, read off the last heartbeat of the trace:
  the marker after a reply with the cancel-requested flag set, nil after the task-gone fault.
\<close>

definition cause_origin :: "string \<Rightarrow> action list \<Rightarrow> error option \<Rightarrow> bool" where
  "cause_origin urf tr cause =
     ((last_heartbeat tr = Some (HbRecorded (Some True)) \<and> cause = Some ActivityTaskCanceledError) \<or>
      (\<exists>e. last_heartbeat tr = Some (HbFailed e) \<and> task_gone urf e \<and> cause = None))"

definition cancel_inv :: "string \<Rightarrow> session \<Rightarrow> bool" where
  "cancel_inv urf s =
     ((\<forall>c. monitor s = Emitting c \<longrightarrow> cause_origin urf (trace s) c) \<and>
      (\<forall>c. RecvCancel c \<in> set (trace s) \<longrightarrow>
         adapter s = Returned None c \<and> monitor s = Stopped \<and>
         suffix [RecvCancel c, CancelCall, CloseStop, Return None c] (adapter_view (trace s)) \<and>
         cause_origin urf (trace s) c \<and> count_list (trace s) CancelCall = 1) \<and>
      ((\<forall>c. RecvCancel c \<notin> set (trace s)) \<longrightarrow> CancelCall \<notin> set (trace s)))"

definition final_tick_inv :: "session \<Rightarrow> bool" where
  "final_tick_inv s = (\<forall>res err. TickCall False res err \<in> set (trace s) \<longrightarrow>
      adapter s = Returned res err \<and>
      suffix [TickCall False res err, CloseStop, Return res err] (adapter_view (trace s)))"

definition blocked_inv :: "error \<Rightarrow> action list \<Rightarrow> session \<Rightarrow> bool" where
  "blocked_inv e av s =
     (adapter s = SendingCancel e \<and> \<not> stop_closed s \<and> adapter_view (trace s) = av)"

definition leaked_inv :: "error option \<Rightarrow> adapter_state \<Rightarrow> session \<Rightarrow> bool" where
  "leaked_inv c a s = (monitor s = Emitting c \<and> adapter s = a \<and> a \<noteq> Selecting \<and> stop_closed s)"

definition panic_inv :: "session \<Rightarrow> bool" where
  "panic_inv s = (monitor s = Panicked \<longleftrightarrow> HeartbeatCall (HbRecorded None) \<in> set (trace s))"

definition channel_inv :: "session \<Rightarrow> bool" where
  "channel_inv s =
     (length (filter is_RecvCancel (trace s)) \<le> 1 \<and>
      (\<forall>c. RecvCancel c \<in> set (trace s) \<longrightarrow> adapter s \<noteq> Selecting) \<and>
      length (filter is_MonitorSend (trace s)) \<le> 1 \<and>
      (\<forall>c. SendCancel Monitor c \<in> set (trace s) \<longrightarrow>
         suffix [SendCancel Monitor c] (monitor_view (trace s)) \<and> monitor s \<noteq> Waiting))"

text \<open>The adapter reaches its own send only right after a call of signalUpdate, and sends an error.\<close>

definition adapter_sends_after_update :: "action list \<Rightarrow> bool" where
  "adapter_sends_after_update tr =
     (\<forall>c. SendCancel Adapter c \<in> set tr \<longrightarrow>
        (\<exists>r e. c = Some e \<and> sublist [SignalUpdateCall r, SendCancel Adapter (Some e)] tr))"

definition return_inv :: "session \<Rightarrow> bool" where
  "return_inv s =
     (case adapter s of
        Returned res err \<Rightarrow>
          length (filter is_Return (trace s)) = 1 \<and>
          (monitor s = NotStarted \<or>
           (stop_closed s \<and> suffix [CloseStop, Return res err] (adapter_view (trace s))))
      | _ \<Rightarrow> filter is_Return (trace s) = [] \<and> \<not> stop_closed s \<and> monitor s \<noteq> NotStarted)"

section \<open>Basic facts about the model\<close>

lemmas step_defs = step_def heartbeat_def heartbeat_beat_def coordinate_select_def
  coordinate_tick_def coordinate_cancel_def return_deferred_def logs_def Let_def

text \<open>\<open>Contains\<close> is the substring test.\<close>

lemma Contains_iff: "Contains s sub \<longleftrightarrow> (\<exists>p q. s = p @ sub @ q)"
proof (induction s)
  case Nil
  then show ?case by auto
next
  case (Cons c s)
  show ?case
  proof
    assume "Contains (c # s) sub"
    then consider "prefix sub (c # s)" | "Contains s sub" by auto
    then show "\<exists>p q. c # s = p @ sub @ q"
    proof cases
      case 1
      then obtain q where "c # s = sub @ q" by (auto simp: prefix_def)
      then have "c # s = [] @ sub @ q" by simp
      then show ?thesis by blast
    next
      case 2
      then obtain p q where "s = p @ sub @ q" using Cons.IH by blast
      then have "c # s = (c # p) @ sub @ q" by simp
      then show ?thesis by blast
    qed
  next
    assume "\<exists>p q. c # s = p @ sub @ q"
    then obtain p q where pq: "c # s = p @ sub @ q" by blast
    show "Contains (c # s) sub"
    proof (cases p)
      case Nil
      then have "prefix sub (c # s)" using pq by (simp add: prefix_def)
      then show ?thesis by simp
    next
      case (Cons a p')
      then have "s = p' @ sub @ q" using pq by simp
      then have "Contains s sub" using Cons.IH by blast
      then show ?thesis by simp
    qed
  qed
qed

lemma run_append: "run urf (evs @ evs') s = run urf evs' (run urf evs s)"
  by (induction evs arbitrary: s) auto

text \<open>A property kept by every step holds along every schedule.\<close>

lemma run_invariant:
  assumes "P s" and "\<And>s ev. P s \<Longrightarrow> P (step urf ev s)"
  shows "P (run urf evs s)"
  using assms(1) by (induction evs arbitrary: s) (auto intro: assms(2))

lemma step_panicked: "monitor s = Panicked \<Longrightarrow> step urf ev s = s"
  by (simp add: step_def)

text \<open>The trace only grows.\<close>

lemma step_trace_prefix: "prefix (trace s) (trace (step urf ev s))"
  by (auto simp: step_defs split: event.splits hb_reply.splits option.splits monitor_state.splits)

lemma run_trace_prefix: "prefix (trace s) (trace (run urf evs s))"
proof (induction evs arbitrary: s)
  case Nil
  then show ?case by simp
next
  case (Cons ev evs)
  have "prefix (trace s) (trace (step urf ev s))" by (rule step_trace_prefix)
  also have "prefix (trace (step urf ev s)) (trace (run urf evs (step urf ev s)))"
    by (rule Cons.IH)
  finally show ?case by simp
qed

text \<open>When neither goroutine is in its \<^verbatim>\<open>select\<close>, nothing moves any more.\<close>

lemma step_idle: "adapter s \<noteq> Selecting \<Longrightarrow> monitor s \<noteq> Waiting \<Longrightarrow> step urf ev s = s"
  by (auto simp: step_def split: event.splits)

lemma run_idle: "adapter s \<noteq> Selecting \<Longrightarrow> monitor s \<noteq> Waiting \<Longrightarrow> run urf evs s = s"
  by (induction evs arbitrary: s) (auto simp: step_idle)

lemma beat_transient:
  "monitor s = Waiting \<Longrightarrow> \<not> task_gone urf e \<Longrightarrow>
   step urf (HeartbeatFires (HbFailed e)) s = logs [HeartbeatCall (HbFailed e)] s"
  by (simp add: step_defs)

section \<open>Reading traces and keeping invariants\<close>

lemma updates_sent_append: "updates_sent (xs @ ys) = updates_sent xs @ updates_sent ys"
  by (induction xs rule: updates_sent.induct) auto

lemma progress_results_append: "progress_results (xs @ ys) = progress_results xs @ progress_results ys"
  by (induction xs rule: progress_results.induct) auto

lemma last_heartbeat_append:
  "last_heartbeat (xs @ ys) = (case last_heartbeat ys of None \<Rightarrow> last_heartbeat xs | Some r \<Rightarrow> Some r)"
  by (induction xs rule: last_heartbeat.induct) (auto split: option.splits)

lemma adapter_view_append: "adapter_view (xs @ ys) = adapter_view xs @ adapter_view ys"
  by (simp add: adapter_view_def)

lemma monitor_view_append: "monitor_view (xs @ ys) = monitor_view xs @ monitor_view ys"
  by (simp add: monitor_view_def)

lemmas view_simps = updates_sent_append progress_results_append last_heartbeat_append
  adapter_view_append monitor_view_append

lemmas run_defs = coordinate_def coordinate_setup_def step_defs task_gone_def TaskGone_def
  adapter_view_def monitor_view_def

lemma no_RecvCancel: "(\<forall>c. RecvCancel c \<notin> set tr) \<Longrightarrow> filter is_RecvCancel tr = []"
proof (induction tr)
  case Nil
  then show ?case by simp
next
  case (Cons a tr)
  then show ?case by (cases a) auto
qed

subsection \<open>Forwarding of progress results\<close>

lemma updates_step:
  "updates_sent (trace s) = progress_results (trace s) \<Longrightarrow>
   updates_sent (trace (step urf ev s)) = progress_results (trace (step urf ev s))"
  by (auto simp: step_defs view_simps split: event.splits hb_reply.splits option.splits monitor_state.splits)

lemma updates_run:
  "updates_sent (trace (coordinate urf started ss evs)) =
   progress_results (trace (coordinate urf started ss evs))"
  unfolding coordinate_def
  by (rule run_invariant) (auto intro: updates_step simp: coordinate_setup_def split: option.splits)

lemma final_tick_setup: "final_tick_inv (coordinate_setup started ss)"
  by (auto simp: final_tick_inv_def coordinate_setup_def split: option.splits)

lemma final_tick_step: "final_tick_inv s \<Longrightarrow> final_tick_inv (step urf ev s)"
  unfolding final_tick_inv_def
  by (cases ev; cases "adapter s")
     (auto simp: step_defs view_simps adapter_view_def suffix_def
           split: hb_reply.splits option.splits monitor_state.splits if_splits)

lemma final_tick_run: "final_tick_inv (coordinate urf started ss evs)"
  unfolding coordinate_def
  by (rule run_invariant) (auto intro: final_tick_setup final_tick_step)

subsection \<open>The cancellation path\<close>

lemma cancel_inv_setup: "cancel_inv urf (coordinate_setup started ss)"
  by (auto simp: cancel_inv_def coordinate_setup_def split: option.splits)

lemma cancel_inv_step: "cancel_inv urf s \<Longrightarrow> cancel_inv urf (step urf ev s)"
  unfolding cancel_inv_def
  by (cases ev; cases "adapter s"; cases "monitor s")
     (auto simp: step_defs view_simps adapter_view_def suffix_def cause_origin_def
           split: hb_reply.splits option.splits if_splits)

lemma cancel_inv_run: "cancel_inv urf (coordinate urf started ss evs)"
  unfolding coordinate_def
  by (rule run_invariant) (auto intro: cancel_inv_setup cancel_inv_step)

subsection \<open>Goroutines blocked in a send\<close>

lemma blocked_step: "blocked_inv e av s \<Longrightarrow> blocked_inv e av (step urf ev s)"
  unfolding blocked_inv_def
  by (cases ev)
     (auto simp: step_defs view_simps adapter_view_def
           split: hb_reply.splits option.splits if_splits)

lemma blocked_run: "blocked_inv e av s \<Longrightarrow> blocked_inv e av (run urf evs s)"
  by (rule run_invariant) (auto intro: blocked_step)

lemma leaked_step: "leaked_inv c a s \<Longrightarrow> leaked_inv c a (step urf ev s)"
  unfolding leaked_inv_def by (cases ev) (auto simp: step_def)

lemma leaked_run: "leaked_inv c a s \<Longrightarrow> leaked_inv c a (run urf evs s)"
  by (rule run_invariant) (auto intro: leaked_step)

subsection \<open>Panics\<close>

lemma panic_inv_step:
  "(monitor s = Panicked \<longleftrightarrow> HeartbeatCall (HbRecorded None) \<in> set (trace s)) \<Longrightarrow>
   (monitor (step urf ev s) = Panicked \<longleftrightarrow> HeartbeatCall (HbRecorded None) \<in> set (trace (step urf ev s)))"
  by (cases "monitor s = Panicked")
     (auto simp: step_defs split: event.splits hb_reply.splits option.splits monitor_state.splits if_splits)

lemma panic_inv_setup:
  "monitor (coordinate_setup started ss) = Panicked \<longleftrightarrow>
   HeartbeatCall (HbRecorded None) \<in> set (trace (coordinate_setup started ss))"
  by (auto simp: coordinate_setup_def split: option.splits)

lemma panic_run:
  "monitor (coordinate urf started ss evs) = Panicked \<longleftrightarrow>
   HeartbeatCall (HbRecorded None) \<in> set (trace (coordinate urf started ss evs))"
proof -
  have "panic_inv (run urf evs (coordinate_setup started ss))"
  proof (rule run_invariant)
    show "panic_inv (coordinate_setup started ss)"
      unfolding panic_inv_def by (rule panic_inv_setup)
  next
    fix s ev
    assume "panic_inv s"
    then show "panic_inv (step urf ev s)"
      unfolding panic_inv_def by (rule panic_inv_step)
  qed
  then show ?thesis by (simp add: panic_inv_def coordinate_def)
qed

subsection \<open>The cancel channel\<close>

lemma no_MonitorSend: "(\<forall>c. SendCancel Monitor c \<notin> set tr) \<Longrightarrow> filter is_MonitorSend tr = []"
proof (induction tr)
  case Nil
  then show ?case by simp
next
  case (Cons a tr)
  then show ?case by (cases a) auto
qed

lemma sublist_snoc: "sublist xs ys \<Longrightarrow> sublist xs (ys @ zs)"
  by (auto simp: sublist_def) (metis append.assoc)

lemma adapter_sends_quiet:
  assumes "adapter_sends_after_update tr" and "list_all (\<lambda>a. \<not> is_AdapterSend a) zs"
  shows "adapter_sends_after_update (tr @ zs)"
  unfolding adapter_sends_after_update_def
proof (intro allI impI)
  fix c
  assume "SendCancel Adapter c \<in> set (tr @ zs)"
  moreover have "SendCancel Adapter c \<notin> set zs"
    using assms(2) by (auto simp: list_all_iff)
  ultimately have "SendCancel Adapter c \<in> set tr" by simp
  then obtain r e where "c = Some e"
    and "sublist [SignalUpdateCall r, SendCancel Adapter (Some e)] tr"
    using assms(1) unfolding adapter_sends_after_update_def by blast
  then show "\<exists>r e. c = Some e \<and>
      sublist [SignalUpdateCall r, SendCancel Adapter (Some e)] (tr @ zs)"
    by (blast intro: sublist_snoc)
qed

lemma adapter_sends_update:
  assumes "adapter_sends_after_update tr" and "\<not> is_AdapterSend x"
  shows "adapter_sends_after_update (tr @ [x, SignalUpdateCall r, SendCancel Adapter (Some e)])"
  unfolding adapter_sends_after_update_def
proof (intro allI impI)
  fix c
  assume c: "SendCancel Adapter c \<in> set (tr @ [x, SignalUpdateCall r, SendCancel Adapter (Some e)])"
  show "\<exists>r' e'. c = Some e' \<and> sublist [SignalUpdateCall r', SendCancel Adapter (Some e')]
      (tr @ [x, SignalUpdateCall r, SendCancel Adapter (Some e)])"
  proof (cases "SendCancel Adapter c \<in> set tr")
    case True
    then obtain r' e' where "c = Some e'"
      and "sublist [SignalUpdateCall r', SendCancel Adapter (Some e')] tr"
      using assms(1) unfolding adapter_sends_after_update_def by blast
    then show ?thesis by (blast intro: sublist_snoc)
  next
    case False
    then have "c = Some e" using c assms(2) by auto
    moreover have "sublist [SignalUpdateCall r, SendCancel Adapter (Some e)]
        ((tr @ [x]) @ [SignalUpdateCall r, SendCancel Adapter (Some e)])"
      by (rule sublist_append_leftI)
    ultimately show ?thesis by auto
  qed
qed

lemma adapter_sends_step:
  "adapter_sends_after_update (trace s) \<Longrightarrow> adapter_sends_after_update (trace (step urf ev s))"
  by (cases ev)
     (auto simp: step_defs intro!: adapter_sends_quiet adapter_sends_update
           split: hb_reply.splits option.splits monitor_state.splits)

lemma adapter_sends_run:
  "adapter_sends_after_update (trace (coordinate urf started ss evs))"
proof -
  have "adapter_sends_after_update (trace (coordinate_setup started ss))"
    by (auto simp: adapter_sends_after_update_def coordinate_setup_def split: option.splits)
  then show ?thesis
    unfolding coordinate_def
    by (rule run_invariant[where P = "\<lambda>s. adapter_sends_after_update (trace s)"])
       (rule adapter_sends_step)
qed

lemma channel_inv_setup: "channel_inv (coordinate_setup started ss)"
  by (auto simp: channel_inv_def coordinate_setup_def monitor_view_def split: option.splits)

lemma channel_inv_step: "channel_inv s \<Longrightarrow> channel_inv (step urf ev s)"
  unfolding channel_inv_def
  by (cases ev; cases "adapter s"; cases "monitor s")
     (auto simp: step_defs view_simps monitor_view_def suffix_def no_RecvCancel no_MonitorSend
           split: hb_reply.splits option.splits if_splits)

lemma channel_inv_run: "channel_inv (coordinate urf started ss evs)"
  unfolding coordinate_def
  by (rule run_invariant) (auto intro: channel_inv_setup channel_inv_step)

text \<open>
  After \<^verbatim>\<open>close(stopHeartbeating)\<close> the monitor's \<^verbatim>\<open>select\<close> may still take a pending
  \<^verbatim>\<open><-heartbeats.C\<close> before it takes \<^verbatim>\<open><-stop\<close>, and then reaches its send.
\<close>

lemma monitor_may_send_after_close:
  "trace (coordinate ''UnknownResourceFault'' (None, None) None
     [TickFires False (Some ''done'') None None, HeartbeatFires (HbRecorded (Some True))]) =
   [StartCall, SignalStartCall None, GoHeartbeat, TickCall False (Some ''done'') None,
    CloseStop, Return (Some ''done'') None, HeartbeatCall (HbRecorded (Some True)),
    SendCancel Monitor (Some ActivityTaskCanceledError)]"
  by (simp add: run_defs)

subsection \<open>Returning\<close>

lemma return_inv_setup: "return_inv (coordinate_setup started ss)"
  by (auto simp: return_inv_def coordinate_setup_def split: option.splits)

lemma return_inv_step: "return_inv s \<Longrightarrow> return_inv (step urf ev s)"
  unfolding return_inv_def
  by (cases ev; cases "adapter s"; cases "monitor s")
     (auto simp: step_defs view_simps adapter_view_def suffix_def
           split: hb_reply.splits option.splits if_splits)

lemma every_return_closes_stop:
  assumes "adapter (coordinate urf started ss evs) = Returned res err"
  shows "length (filter is_Return (trace (coordinate urf started ss evs))) = 1 \<and>
         (monitor (coordinate urf started ss evs) = NotStarted \<or>
          (stop_closed (coordinate urf started ss evs) \<and>
           suffix [CloseStop, Return res err] (adapter_view (trace (coordinate urf started ss evs)))))"
proof -
  have "return_inv (coordinate urf started ss evs)"
    unfolding coordinate_def
    by (rule run_invariant) (auto intro: return_inv_setup return_inv_step)
  then show ?thesis using assms by (simp add: return_inv_def)
qed

section \<open>The claims\<close>

text \<open>
  C9. Each of the four methods of a FuncInterceptor does nothing when its function field is
  nil, and otherwise has exactly the effect of one call of that function on the arguments
  the method received.
\<close>

theorem FuncInterceptor_methods:
  "BeforeTask (i\<lparr>BeforeTaskFn := None\<rparr>) t w = w \<and>
   BeforeTask (i\<lparr>BeforeTaskFn := Some f1\<rparr>) t w = f1 t w \<and>
   AfterTaskComplete (i\<lparr>AfterTaskCompleteFn := None\<rparr>) t res w = w \<and>
   AfterTaskComplete (i\<lparr>AfterTaskCompleteFn := Some f2\<rparr>) t res w = f2 t res w \<and>
   AfterTaskFailed (i\<lparr>AfterTaskFailedFn := None\<rparr>) t err w = w \<and>
   AfterTaskFailed (i\<lparr>AfterTaskFailedFn := Some f3\<rparr>) t err w = f3 t err w \<and>
   AfterTaskCanceled (i\<lparr>AfterTaskCanceledFn := None\<rparr>) t details w = w \<and>
   AfterTaskCanceled (i\<lparr>AfterTaskCanceledFn := Some f4\<rparr>) t details w = f4 t details w"
  by (simp add: BeforeTask_def AfterTaskComplete_def AfterTaskFailed_def AfterTaskCanceled_def)

text \<open>
  C4. When Start returns an error, or Start succeeds and the initial signalStart returns an
  error, the adapter returns \<open>(nil, that error)\<close> and, whatever the environment does
  afterwards, the session stays as it is: the monitor was never spawned, and the trace
  holds no Tick and no Cancel. When both succeed, the trace of every schedule begins with
  Start, signalStart on the value Start returned, and the spawn of the monitor: every
  Tick comes after them.
\<close>

theorem setup_failure_is_fatal:
  "coordinate urf (u, Some e) ss evs =
     \<lparr>adapter = Returned None (Some e), monitor = NotStarted, stop_closed = False,
      trace = [StartCall, Return None (Some e)]\<rparr> \<and>
   coordinate urf (u, None) (Some e) evs =
     \<lparr>adapter = Returned None (Some e), monitor = NotStarted, stop_closed = False,
      trace = [StartCall, SignalStartCall u, Return None (Some e)]\<rparr> \<and>
   prefix [StartCall, SignalStartCall u, GoHeartbeat] (trace (coordinate urf (u, None) None evs))"
proof -
  have a: "coordinate urf (u, Some e) ss evs = coordinate_setup (u, Some e) ss"
    unfolding coordinate_def by (rule run_idle) (simp_all add: coordinate_setup_def)
  have b: "coordinate urf (u, None) (Some e) evs = coordinate_setup (u, None) (Some e)"
    unfolding coordinate_def by (rule run_idle) (simp_all add: coordinate_setup_def)
  have c: "prefix (trace (coordinate_setup (u, None) None))
             (trace (coordinate urf (u, None) None evs))"
    unfolding coordinate_def by (rule run_trace_prefix)
  show ?thesis using a b c by (simp add: coordinate_setup_def)
qed

text \<open>
  C3. Along every schedule the payloads handed to signalUpdate are exactly the non-nil
  results of the continuing Ticks, one call each, in the order Tick produced them. A Tick
  that returns continue=false ends the session at once: the adapter returns the very pair
  \<open>(result, error)\<close> of that Tick (a nil error reads as Completed(result), any other as
  Failed(error)), and nothing stands between that Tick and the return but the deferred
  close of the stop channel; its result is not handed to signalUpdate.
\<close>

theorem tick_results_forwarded_in_order:
  "updates_sent (trace (coordinate urf started ss evs)) =
     progress_results (trace (coordinate urf started ss evs)) \<and>
   (TickCall False res err \<in> set (trace (coordinate urf started ss evs)) \<longrightarrow>
      adapter (coordinate urf started ss evs) = Returned res err \<and>
      suffix [TickCall False res err, CloseStop, Return res err]
        (adapter_view (trace (coordinate urf started ss evs))))"
  using updates_run[of urf started ss evs] final_tick_run[of urf started ss evs]
  unfolding final_tick_inv_def by blast

text \<open>
  The schedule of the spec's example: two progress results, then completion.
\<close>

theorem tick_results_forwarded_in_order_witness:
  "TickCall False (Some ''resC'') None \<in> set (trace (coordinate ''UnknownResourceFault'' (None, None) None
      [TickFires True (Some ''resA'') None None, TickFires True (Some ''resB'') None None,
       TickFires False (Some ''resC'') None None])) \<and>
   updates_sent (trace (coordinate ''UnknownResourceFault'' (None, None) None
      [TickFires True (Some ''resA'') None None, TickFires True (Some ''resB'') None None,
       TickFires False (Some ''resC'') None None])) = [''resA'', ''resB''] \<and>
   adapter (coordinate ''UnknownResourceFault'' (None, None) None
      [TickFires True (Some ''resA'') None None, TickFires True (Some ''resB'') None None,
       TickFires False (Some ''resC'') None None]) = Returned (Some ''resC'') None"
proof -
  let ?s = "coordinate ''UnknownResourceFault'' (None, None) None
      [TickFires True (Some ''resA'') None None, TickFires True (Some ''resB'') None None,
       TickFires False (Some ''resC'') None None]"
  have a: "TickCall False (Some ''resC'') None \<in> set (trace ?s)"
    by (simp add: run_defs)
  have b: "progress_results (trace ?s) = [''resA'', ''resB'']"
    by (simp add: run_defs)
  show ?thesis
    using a b tick_results_forwarded_in_order[of "''UnknownResourceFault''" "(None, None)" None
      "[TickFires True (Some ''resA'') None None, TickFires True (Some ''resB'') None None,
       TickFires False (Some ''resC'') None None]" "Some ''resC''" None]
    by simp
qed

text \<open>
  C5. From any state in which the monitor waits in its \<^verbatim>\<open>select\<close>, any number of
  consecutive heartbeats that fail with an error other than the task-gone fault leave the
  session as it was but for the heartbeat calls added to the trace: nothing is sent on
  the cancel channel, and the monitor still waits for the next interval.
\<close>

theorem transient_heartbeat_failures_keep_monitoring:
  assumes "monitor s = Waiting" and "\<forall>e \<in> set errs. \<not> task_gone urf e"
  shows "run urf (map (\<lambda>e. HeartbeatFires (HbFailed e)) errs) s =
         s\<lparr>trace := trace s @ map (\<lambda>e. HeartbeatCall (HbFailed e)) errs\<rparr>"
  using assms
proof (induction errs arbitrary: s)
  case Nil
  then show ?case by simp
next
  case (Cons e errs)
  have st: "step urf (HeartbeatFires (HbFailed e)) s = logs [HeartbeatCall (HbFailed e)] s"
    using Cons.prems by (simp add: beat_transient)
  have "monitor (logs [HeartbeatCall (HbFailed e)] s) = Waiting"
    using Cons.prems by (simp add: logs_def)
  then have "run urf (map (\<lambda>e. HeartbeatFires (HbFailed e)) errs) (logs [HeartbeatCall (HbFailed e)] s)
      = (logs [HeartbeatCall (HbFailed e)] s)\<lparr>trace := trace (logs [HeartbeatCall (HbFailed e)] s) @ map (\<lambda>e. HeartbeatCall (HbFailed e)) errs\<rparr>"
    using Cons.IH Cons.prems by simp
  then show ?case using st by (simp add: logs_def)
qed

text \<open>
  Three transient failures in a row: an opaque error, a fault with another code, and the
  unknown-resource fault whose message does not name the activity.
\<close>

theorem transient_heartbeat_failures_keep_monitoring_witness:
  "monitor (coordinate_setup (None, None) None) = Waiting \<and>
   \<not> task_gone ''UnknownResourceFault'' (OtherError ''timeout'') \<and>
   \<not> task_gone ''UnknownResourceFault'' (AwsError ''ThrottlingException'' ''Unknown activity'') \<and>
   \<not> task_gone ''UnknownResourceFault'' (AwsError ''UnknownResourceFault'' ''Unknown domain'') \<and>
   run ''UnknownResourceFault''
     [HeartbeatFires (HbFailed (OtherError ''timeout'')),
      HeartbeatFires (HbFailed (AwsError ''ThrottlingException'' ''Unknown activity'')),
      HeartbeatFires (HbFailed (AwsError ''UnknownResourceFault'' ''Unknown domain''))]
     (coordinate_setup (None, None) None) =
   \<lparr>adapter = Selecting, monitor = Waiting, stop_closed = False,
    trace = [StartCall, SignalStartCall None, GoHeartbeat,
             HeartbeatCall (HbFailed (OtherError ''timeout'')),
             HeartbeatCall (HbFailed (AwsError ''ThrottlingException'' ''Unknown activity'')),
             HeartbeatCall (HbFailed (AwsError ''UnknownResourceFault'' ''Unknown domain''))]\<rparr>"
proof -
  have a: "monitor (coordinate_setup (None, None) None) = Waiting"
    by (simp add: coordinate_setup_def)
  have b: "\<forall>e \<in> set [OtherError ''timeout'', AwsError ''ThrottlingException'' ''Unknown activity'',
             AwsError ''UnknownResourceFault'' ''Unknown domain'']. \<not> task_gone ''UnknownResourceFault'' e"
    by (simp add: task_gone_def TaskGone_def)
  show ?thesis
    using a b transient_heartbeat_failures_keep_monitoring[OF a b]
    by (simp add: coordinate_setup_def)
qed

text \<open>
  C10. A successful heartbeat reply is dereferenced without a nil check: from its
  \<^verbatim>\<open>select\<close> the monitor panics on such a reply exactly when the \<^verbatim>\<open>CancelRequested\<close>
  pointer is nil. Along every schedule the session has panicked exactly when a successful
  reply with a nil flag has been processed, so the monitor is panic-free precisely under
  the precondition that every successful reply carries a flag.
\<close>

theorem nil_cancel_flag_panics:
  "(monitor s = Waiting \<longrightarrow>
      (monitor (step urf (HeartbeatFires (HbRecorded flag)) s) = Panicked \<longleftrightarrow> flag = None)) \<and>
   (monitor (coordinate urf started ss evs) = Panicked \<longleftrightarrow>
      HeartbeatCall (HbRecorded None) \<in> set (trace (coordinate urf started ss evs)))"
proof -
  have "monitor s = Waiting \<longrightarrow>
      (monitor (step urf (HeartbeatFires (HbRecorded flag)) s) = Panicked \<longleftrightarrow> flag = None)"
    by (auto simp: step_defs split: option.splits)
  then show ?thesis using panic_run[of urf started ss evs] by blast
qed

text \<open>
  A reply with a nil flag on the second heartbeat: the process is gone, and the tick that
  follows is never served.
\<close>

theorem nil_cancel_flag_panics_witness:
  "monitor (coordinate_setup (None, None) None) = Waiting \<and>
   monitor (step ''UnknownResourceFault'' (HeartbeatFires (HbRecorded None))
     (coordinate_setup (None, None) None)) = Panicked \<and>
   monitor (coordinate ''UnknownResourceFault'' (None, None) None
     [HeartbeatFires (HbRecorded (Some False)), HeartbeatFires (HbRecorded None),
      TickFires False None None None]) = Panicked \<and>
   adapter (coordinate ''UnknownResourceFault'' (None, None) None
     [HeartbeatFires (HbRecorded (Some False)), HeartbeatFires (HbRecorded None),
      TickFires False None None None]) = Selecting"
proof -
  have a: "monitor (coordinate_setup (None, None) None) = Waiting"
    by (simp add: coordinate_setup_def)
  have b: "HeartbeatCall (HbRecorded None) \<in> set (trace (coordinate ''UnknownResourceFault'' (None, None) None
     [HeartbeatFires (HbRecorded (Some False)), HeartbeatFires (HbRecorded None),
      TickFires False None None None]))"
    by (simp add: run_defs)
  have c: "adapter (coordinate ''UnknownResourceFault'' (None, None) None
     [HeartbeatFires (HbRecorded (Some False)), HeartbeatFires (HbRecorded None),
      TickFires False None None None]) = Selecting"
    by (simp add: run_defs)
  show ?thesis
    using a b c
      nil_cancel_flag_panics[of "coordinate_setup (None, None) None" "''UnknownResourceFault''" None
        "(None, None)" None "[HeartbeatFires (HbRecorded (Some False)), HeartbeatFires (HbRecorded None),
      TickFires False None None None]"]
    by blast
qed

text \<open>
  C1, as the code has it. When the adapter receives a cancellation signal it calls Cancel,
  once, runs the deferred close and returns \<open>(nil, cause)\<close>, where \<open>cause\<close> is what the
  monitor sent after its last heartbeat: the marker \<^verbatim>\<open>ActivityTaskCanceledError{}\<close> when
  that heartbeat succeeded with the cancel-requested flag set, and nil when it failed with
  the task-gone fault.
\<close>

theorem cancellation_outcome:
  assumes "RecvCancel cause \<in> set (trace (coordinate urf started ss evs))"
  shows "adapter (coordinate urf started ss evs) = Returned None cause \<and>
         suffix [RecvCancel cause, CancelCall, CloseStop, Return None cause]
           (adapter_view (trace (coordinate urf started ss evs))) \<and>
         count_list (trace (coordinate urf started ss evs)) CancelCall = 1 \<and>
         ((last_heartbeat (trace (coordinate urf started ss evs)) = Some (HbRecorded (Some True)) \<and>
           cause = Some ActivityTaskCanceledError) \<or>
          (\<exists>e. last_heartbeat (trace (coordinate urf started ss evs)) = Some (HbFailed e) \<and>
             task_gone urf e \<and> cause = None))"
  using assms cancel_inv_run[of urf started ss evs]
  unfolding cancel_inv_def cause_origin_def by blast

text \<open>
  Both origins: a cancel request after an uneventful heartbeat and tick, and the task-gone
  fault on the third heartbeat.
\<close>

theorem cancellation_outcome_witness:
  "RecvCancel (Some ActivityTaskCanceledError) \<in> set (trace (coordinate ''UnknownResourceFault'' (Some ''started'', None) None
      [HeartbeatFires (HbRecorded (Some False)), TickFires True None None None,
       HeartbeatFires (HbRecorded (Some True)), CancelSelected (Some (OtherError ''cleanup failed''))])) \<and>
   adapter (coordinate ''UnknownResourceFault'' (Some ''started'', None) None
      [HeartbeatFires (HbRecorded (Some False)), TickFires True None None None,
       HeartbeatFires (HbRecorded (Some True)), CancelSelected (Some (OtherError ''cleanup failed''))])
     = Returned None (Some ActivityTaskCanceledError) \<and>
   RecvCancel None \<in> set (trace (coordinate ''UnknownResourceFault'' (Some ''started'', None) None
      [HeartbeatFires (HbRecorded (Some False)), HeartbeatFires (HbFailed (OtherError ''timeout'')),
       HeartbeatFires (HbFailed (AwsError ''UnknownResourceFault'' ''Unknown activity: a1'')),
       CancelSelected None])) \<and>
   adapter (coordinate ''UnknownResourceFault'' (Some ''started'', None) None
      [HeartbeatFires (HbRecorded (Some False)), HeartbeatFires (HbFailed (OtherError ''timeout'')),
       HeartbeatFires (HbFailed (AwsError ''UnknownResourceFault'' ''Unknown activity: a1'')),
       CancelSelected None])
     = Returned None None"
proof -
  have a: "RecvCancel (Some ActivityTaskCanceledError) \<in> set (trace (coordinate ''UnknownResourceFault'' (Some ''started'', None) None
      [HeartbeatFires (HbRecorded (Some False)), TickFires True None None None,
       HeartbeatFires (HbRecorded (Some True)), CancelSelected (Some (OtherError ''cleanup failed''))]))"
    by (simp add: run_defs)
  have b: "RecvCancel None \<in> set (trace (coordinate ''UnknownResourceFault'' (Some ''started'', None) None
      [HeartbeatFires (HbRecorded (Some False)), HeartbeatFires (HbFailed (OtherError ''timeout'')),
       HeartbeatFires (HbFailed (AwsError ''UnknownResourceFault'' ''Unknown activity: a1'')),
       CancelSelected None]))"
    by (simp add: run_defs)
  show ?thesis using a b cancellation_outcome[OF a] cancellation_outcome[OF b] by blast
qed

text \<open>
  C1 as stated gives the two causes the other way round. After a clean cancel request the
  adapter returns the marker, not nil; after the task-gone fault it returns nil.
\<close>

theorem cancel_request_cause_counterexample:
  "adapter (coordinate ''UnknownResourceFault'' (None, None) None
      [HeartbeatFires (HbRecorded (Some True)), CancelSelected None])
     = Returned None (Some ActivityTaskCanceledError) \<and>
   adapter (coordinate ''UnknownResourceFault'' (None, None) None
      [HeartbeatFires (HbRecorded (Some True)), CancelSelected None])
     \<noteq> Returned None None \<and>
   adapter (coordinate ''UnknownResourceFault'' (None, None) None
      [HeartbeatFires (HbFailed (AwsError ''UnknownResourceFault'' ''Unknown activity'')),
       CancelSelected None])
     = Returned None None"
  by (simp add: run_defs)

text \<open>
  C2. The session in which the first Tick continues with a non-nil result and signalUpdate
  fails on it. The adapter reaches the send of line 159 on the unbuffered channel it alone
  receives from, and stays there under every continuation of the schedule: what it has
  done is fixed at Start, signalStart, the spawn, that Tick, signalUpdate and the send.
  Cancel is never called and the adapter never returns.
\<close>

theorem signal_update_failure_blocks_adapter:
  "adapter (coordinate urf (u, None) None (TickFires True (Some r) terr (Some e) # evs))
     = SendingCancel e \<and>
   \<not> stop_closed (coordinate urf (u, None) None (TickFires True (Some r) terr (Some e) # evs)) \<and>
   adapter_view (trace (coordinate urf (u, None) None (TickFires True (Some r) terr (Some e) # evs)))
     = [StartCall, SignalStartCall u, GoHeartbeat, TickCall True (Some r) terr,
        SignalUpdateCall r, SendCancel Adapter (Some e)]"
proof -
  let ?s1 = "step urf (TickFires True (Some r) terr (Some e)) (coordinate_setup (u, None) None)"
  have "blocked_inv e [StartCall, SignalStartCall u, GoHeartbeat, TickCall True (Some r) terr,
        SignalUpdateCall r, SendCancel Adapter (Some e)] ?s1"
    by (simp add: blocked_inv_def run_defs)
  then have "blocked_inv e [StartCall, SignalStartCall u, GoHeartbeat, TickCall True (Some r) terr,
        SignalUpdateCall r, SendCancel Adapter (Some e)] (run urf evs ?s1)"
    by (rule blocked_run)
  then show ?thesis by (simp add: blocked_inv_def coordinate_def)
qed

text \<open>
  C7. The session in which a heartbeat reports the cancel request and, before the adapter
  takes the signal, a Tick ends the session. The adapter returns the Tick's pair and the
  stop channel is closed, but the monitor is blocked in its send of line 116, outside its
  \<^verbatim>\<open>select\<close>, and stays blocked under every continuation of the schedule.
\<close>

theorem monitor_blocked_in_send_is_leaked:
  "adapter (coordinate urf (u, None) None
      (HeartbeatFires (HbRecorded (Some True)) # TickFires False res err su # evs)) = Returned res err \<and>
   stop_closed (coordinate urf (u, None) None
      (HeartbeatFires (HbRecorded (Some True)) # TickFires False res err su # evs)) \<and>
   monitor (coordinate urf (u, None) None
      (HeartbeatFires (HbRecorded (Some True)) # TickFires False res err su # evs))
     = Emitting (Some ActivityTaskCanceledError)"
proof -
  let ?s2 = "step urf (TickFires False res err su)
     (step urf (HeartbeatFires (HbRecorded (Some True))) (coordinate_setup (u, None) None))"
  have "leaked_inv (Some ActivityTaskCanceledError) (Returned res err) ?s2"
    by (simp add: leaked_inv_def run_defs)
  then have "leaked_inv (Some ActivityTaskCanceledError) (Returned res err) (run urf evs ?s2)"
    by (rule leaked_run)
  then show ?thesis by (simp add: leaked_inv_def coordinate_def)
qed

text \<open>
  C6, as far as the design of the code goes. Along every schedule at most one signal is
  received from the cancel channel, and the monitor reaches a send on it at most once;
  that send is the monitor's last action: no heartbeat and no second send follows it.
  The channel has a second writer: the adapter sends a non-nil error on it, right after a
  call of signalUpdate (line 159). What becomes of a send that finds no receiver, and
  whether the monitor can still reach its send once the stop channel is closed, is no
  part of this statement.
\<close>

theorem cancel_channel_writers:
  "length (filter is_RecvCancel (trace (coordinate urf started ss evs))) \<le> 1 \<and>
   length (filter is_MonitorSend (trace (coordinate urf started ss evs))) \<le> 1 \<and>
   (\<forall>c. SendCancel Monitor c \<in> set (trace (coordinate urf started ss evs)) \<longrightarrow>
      suffix [SendCancel Monitor c] (monitor_view (trace (coordinate urf started ss evs)))) \<and>
   (\<forall>c. SendCancel Adapter c \<in> set (trace (coordinate urf started ss evs)) \<longrightarrow>
      (\<exists>r e. c = Some e \<and>
         sublist [SignalUpdateCall r, SendCancel Adapter (Some e)]
           (trace (coordinate urf started ss evs))))"
  using channel_inv_run[of urf started ss evs] adapter_sends_run[of urf started ss evs]
  unfolding channel_inv_def adapter_sends_after_update_def by blast

text \<open>
  A task-gone signal sent and delivered after an uneventful heartbeat, and an adapter that
  sends the error of its second signalUpdate.
\<close>

theorem cancel_channel_writers_witness:
  "SendCancel Monitor None \<in> set (trace (coordinate ''UnknownResourceFault'' (None, None) None
      [HeartbeatFires (HbRecorded (Some False)),
       HeartbeatFires (HbFailed (AwsError ''UnknownResourceFault'' ''Unknown activity'')),
       TickFires True None None None, HeartbeatFires (HbRecorded (Some True)), CancelSelected None])) \<and>
   suffix [SendCancel Monitor None] (monitor_view (trace (coordinate ''UnknownResourceFault'' (None, None) None
      [HeartbeatFires (HbRecorded (Some False)),
       HeartbeatFires (HbFailed (AwsError ''UnknownResourceFault'' ''Unknown activity'')),
       TickFires True None None None, HeartbeatFires (HbRecorded (Some True)), CancelSelected None]))) \<and>
   SendCancel Adapter (Some (OtherError ''signal failed'')) \<in> set (trace
     (coordinate ''UnknownResourceFault'' (None, None) None
        [TickFires True (Some ''first'') None None,
         TickFires True (Some ''second'') None (Some (OtherError ''signal failed''))])) \<and>
   sublist [SignalUpdateCall ''second'', SendCancel Adapter (Some (OtherError ''signal failed''))]
     (trace (coordinate ''UnknownResourceFault'' (None, None) None
        [TickFires True (Some ''first'') None None,
         TickFires True (Some ''second'') None (Some (OtherError ''signal failed''))]))"
proof -
  let ?r1 = "coordinate ''UnknownResourceFault'' (None, None) None
      [HeartbeatFires (HbRecorded (Some False)),
       HeartbeatFires (HbFailed (AwsError ''UnknownResourceFault'' ''Unknown activity'')),
       TickFires True None None None, HeartbeatFires (HbRecorded (Some True)), CancelSelected None]"
  let ?r2 = "coordinate ''UnknownResourceFault'' (None, None) None
        [TickFires True (Some ''first'') None None,
         TickFires True (Some ''second'') None (Some (OtherError ''signal failed''))]"
  have a: "SendCancel Monitor None \<in> set (trace ?r1)"
    by (simp add: run_defs)
  have b: "SendCancel Adapter (Some (OtherError ''signal failed'')) \<in> set (trace ?r2)"
    by (simp add: run_defs)
  have c: "trace ?r2 = [StartCall, SignalStartCall None, GoHeartbeat,
      TickCall True (Some ''first'') None, SignalUpdateCall ''first'',
      TickCall True (Some ''second'') None] @
      [SignalUpdateCall ''second'', SendCancel Adapter (Some (OtherError ''signal failed''))] @ []"
    by (simp add: run_defs)
  have d: "sublist [SignalUpdateCall ''second'', SendCancel Adapter (Some (OtherError ''signal failed''))]
     (trace ?r2)"
    unfolding c by (rule sublist_appendI)
  from cancel_channel_writers[of "''UnknownResourceFault''" "(None, None)" None
      "[HeartbeatFires (HbRecorded (Some False)),
       HeartbeatFires (HbFailed (AwsError ''UnknownResourceFault'' ''Unknown activity'')),
       TickFires True None None None, HeartbeatFires (HbRecorded (Some True)), CancelSelected None]"] a
  have e: "suffix [SendCancel Monitor None] (monitor_view (trace ?r1))" by blast
  show ?thesis using a b d e by blast
qed

text \<open>
  C6 as stated has the monitor as the only writer, and one signal per session. After a
  failed signalUpdate the adapter itself sends on the cancel channel; with a cancel request
  already pending, the session has two sends on the channel, one from each side.
\<close>

theorem adapter_writes_cancel_counterexample:
  "SendCancel Adapter (Some (OtherError ''signal failed'')) \<in> set (trace
     (coordinate ''UnknownResourceFault'' (None, None) None
        [TickFires True (Some ''progress'') None (Some (OtherError ''signal failed''))])) \<and>
   filter (\<lambda>a. a = SendCancel Monitor (Some ActivityTaskCanceledError) \<or>
                a = SendCancel Adapter (Some (OtherError ''signal failed'')))
     (trace (coordinate ''UnknownResourceFault'' (None, None) None
        [HeartbeatFires (HbRecorded (Some True)),
         TickFires True (Some ''progress'') None (Some (OtherError ''signal failed''))])) =
   [SendCancel Monitor (Some ActivityTaskCanceledError),
    SendCancel Adapter (Some (OtherError ''signal failed''))]"
  by (simp add: run_defs)

end
